theory Spec2Isabelle
  imports Complex_Main "HOL-Library.Sublist"
begin

section \<open>Data model of map.js\<close>

text \<open>
  A station is an object of the array \<open>data.stations\<close> of the stations document. The
  script reads \<open>short_name\<close>, \<open>lon\<close> and \<open>lat\<close>; every other property of the object
  is carried along by the spread \<open>{...st}\<close> and never read, so it is kept in one field
  of arbitrary type.
\<close>

record 'r station =
  short_name :: string
  lon :: real
  lat :: real
  other :: 'r

text \<open>
  The object literal of lines 56 to 61 is a station with three more properties.
\<close>

record 'r station_traffic = "'r station" +
  arrivals :: nat
  departures :: nat
  totalTraffic :: nat

text \<open>
  A JavaScript \<open>Date\<close>, as far as the script looks at it: \<open>getHours()\<close> and
  \<open>getMinutes()\<close>. \<open>new Date(s)\<close> of a string that does not parse is an invalid date,
  whose getters return NaN. A number that may be NaN is an \<open>int option\<close>, \<open>None\<close> being
  NaN.
\<close>

datatype js_date = ValidDate nat nat | InvalidDate

fun getHours :: "js_date \<Rightarrow> int option" where
  "getHours (ValidDate h m) = Some (int h)"
| "getHours InvalidDate = None"

fun getMinutes :: "js_date \<Rightarrow> int option" where
  "getMinutes (ValidDate h m) = Some (int m)"
| "getMinutes InvalidDate = None"

text \<open>
  A trip is a row of the CSV document after the row conversion of lines 119 to 123. The
  other columns of the row are the extension part of the record.
\<close>

record trip =
  start_station_id :: string
  end_station_id :: string
  started_at :: js_date
  ended_at :: js_date

section \<open>The d3 functions the aggregation uses\<close>

text \<open>
  Modelled from the spec: \<open>d3.rollup\<close> belongs to the d3 library that line 3 imports
  from a CDN; it is not under src/. The spec calls its result a frequency table "keyed by
  each trip's start-station id", built "via a single pass over trips (grouping, not
  sorting)". The model follows the library: one pass puts every value at the end of the
  group of its key (a new group when the key is new), then every group is replaced by its
  reduction. \<open>Map.get\<close> of an absent key is \<open>undefined\<close>, here \<open>None\<close>.
\<close>

definition group_insert :: "('k \<rightharpoonup> 'a list) \<Rightarrow> 'k \<Rightarrow> 'a \<Rightarrow> ('k \<rightharpoonup> 'a list)" where
  "group_insert groups key v =
     (case groups key of
        Some grp \<Rightarrow> groups(key \<mapsto> grp @ [v])
      | None \<Rightarrow> groups(key \<mapsto> [v]))"

definition regroup :: "'a list \<Rightarrow> ('a \<Rightarrow> 'k) \<Rightarrow> ('k \<rightharpoonup> 'a list)" where
  "regroup vs keyof = foldl (\<lambda>groups v. group_insert groups (keyof v) v) Map.empty vs"

definition rollup :: "'a list \<Rightarrow> ('a list \<Rightarrow> 'v) \<Rightarrow> ('a \<Rightarrow> 'k) \<Rightarrow> ('k \<rightharpoonup> 'v)" where
  "rollup vs reduce keyof = (\<lambda>key. map_option reduce (regroup vs keyof key))"

text \<open>The operator \<open>??\<close>: the right operand when the left one is \<open>undefined\<close>.\<close>

definition nullish :: "'a option \<Rightarrow> 'a \<Rightarrow> 'a" where
  "nullish v d = (case v of None \<Rightarrow> d | Some x \<Rightarrow> x)"

section \<open>computeStationTraffic (lines 41 to 63)\<close>

text \<open>The arrow function of lines 54 to 62, given the two tables.\<close>

definition stationWithTraffic ::
  "(string \<rightharpoonup> nat) \<Rightarrow> (string \<rightharpoonup> nat) \<Rightarrow> 'r station \<Rightarrow> 'r station_traffic" where
  "stationWithTraffic arrivalsMap departuresMap st =
     (let id = short_name st
      in station.extend st
           \<lparr>arrivals = nullish (arrivalsMap id) 0,
            departures = nullish (departuresMap id) 0,
            totalTraffic = nullish (arrivalsMap id) 0 + nullish (departuresMap id) 0\<rparr>)"

definition computeStationTraffic ::
  "'r station list \<Rightarrow> 'z trip_scheme list \<Rightarrow> 'r station_traffic list" where
  "computeStationTraffic stations trips =
     (let departuresMap = rollup trips length start_station_id;
          arrivalsMap = rollup trips length end_station_id
      in map (stationWithTraffic arrivalsMap departuresMap) stations)"

section \<open>minutesSinceMidnight and filterTripsByTime (lines 68 to 87)\<close>

text \<open>\<open>date.getHours() * 60 + date.getMinutes()\<close>; NaN when a getter returns NaN.\<close>

definition minutesSinceMidnight :: "js_date \<Rightarrow> int option" where
  "minutesSinceMidnight date =
     (case (getHours date, getMinutes date) of
        (Some h, Some m) \<Rightarrow> Some (h * 60 + m)
      | _ \<Rightarrow> None)"

text \<open>
  \<open>Math.abs(x - timeFilter) <= 60\<close>, where \<open>x\<close> may be NaN: every comparison with NaN
  is false.
\<close>

definition absDiffLe60 :: "int option \<Rightarrow> int \<Rightarrow> bool" where
  "absDiffLe60 x timeFilter = (case x of None \<Rightarrow> False | Some v \<Rightarrow> \<bar>v - timeFilter\<bar> \<le> 60)"

text \<open>
  The filter value is the number the slider gives: the sentinel \<open>-1\<close> or a minute of the
  day. It is an integer here, as the spec's data model has it.
\<close>

text \<open>The arrow function of lines 78 to 86.\<close>

definition tripInWindow :: "int \<Rightarrow> 'z trip_scheme \<Rightarrow> bool" where
  "tripInWindow timeFilter trip =
     (let startM = minutesSinceMidnight (started_at trip);
          endM = minutesSinceMidnight (ended_at trip)
      in absDiffLe60 startM timeFilter \<or> absDiffLe60 endM timeFilter)"

definition filterTripsByTime :: "'z trip_scheme list \<Rightarrow> int \<Rightarrow> 'z trip_scheme list" where
  "filterTripsByTime trips timeFilter =
     (if timeFilter = - 1 then trips else filter (tripInWindow timeFilter) trips)"

text \<open>
  The spec's wording of the time filter, to compare with the code: a trip is kept when
  the filter value and the trip's start-minute, or the filter value and its end-minute,
  differ by at most 60, both ends of the window included, and nothing is taken modulo
  the length of a day. A minute that is NaN is within no window.
\<close>

definition spec_near :: "int \<Rightarrow> int option \<Rightarrow> bool" where
  "spec_near m x = (case x of None \<Rightarrow> False | Some v \<Rightarrow> m - 60 \<le> v \<and> v \<le> m + 60)"

definition spec_in_window :: "int \<Rightarrow> 'z trip_scheme \<Rightarrow> bool" where
  "spec_in_window m trip =
     (spec_near m (minutesSinceMidnight (started_at trip)) \<or>
      spec_near m (minutesSinceMidnight (ended_at trip)))"

section \<open>The flow-ratio scale (line 89, lines 157 to 158 and 206 to 208)\<close>

text \<open>
  The quotient of two counts, as JavaScript's \<open>/\<close> gives it: \<open>0 / 0\<close> is NaN and
  \<open>n / 0\<close> is \<open>Infinity\<close> for a positive \<open>n\<close>. Finite quotients are real numbers here;
  the buckets they fall in do not depend on rounding for counts a trip list can reach.
\<close>

datatype number = Num real | NaN | Infinity

definition js_divide :: "nat \<Rightarrow> nat \<Rightarrow> number" where
  "js_divide a b =
     (if b \<noteq> 0 then Num (real a / real b) else if a = 0 then NaN else Infinity)"

text \<open>
  Modelled from the spec: \<open>d3.scaleQuantize\<close> belongs to the d3 library, not under
  src/. The spec calls \<open>stationFlow\<close> "a quantizing mapping from [0,1] (departure
  fraction) into 3 discrete buckets {0, 0.5, 1}" and says that the not-a-number ratio of
  a station without traffic is left to "propagate silently" into "an undefined visual
  state". The model follows the library: a range of \<open>n + 1\<close> values cuts the domain at
  \<open>n\<close> thresholds, a number is mapped to the range value at the number of thresholds
  that are at most the number, and NaN is mapped to the scale's unknown value, which is
  \<open>undefined\<close> (here \<open>None\<close>) as the script never sets it.
\<close>

definition quantize_domain :: "real \<Rightarrow> real \<Rightarrow> nat \<Rightarrow> real list" where
  "quantize_domain x0 x1 n =
     map (\<lambda>i. ((real i + 1) * x1 - (real i - real n) * x0) / (real n + 1)) [0..<n]"

fun num_le :: "real \<Rightarrow> number \<Rightarrow> bool" where
  "num_le d (Num v) = (d \<le> v)"
| "num_le d Infinity = True"
| "num_le d NaN = False"

definition bisectRight :: "real list \<Rightarrow> number \<Rightarrow> nat" where
  "bisectRight a x = length (takeWhile (\<lambda>d. num_le d x) a)"

definition scaleQuantize :: "real \<Rightarrow> real \<Rightarrow> real list \<Rightarrow> number \<Rightarrow> real option" where
  "scaleQuantize x0 x1 rng x =
     (case x of
        NaN \<Rightarrow> None
      | _ \<Rightarrow>
          (let n = length rng - 1;
               i = bisectRight (quantize_domain x0 x1 n) x
           in if i < length rng then Some (rng ! i) else None))"

text \<open>Line 89: \<open>d3.scaleQuantize().domain([0, 1]).range([0, 0.5, 1])\<close>.\<close>

definition stationFlow :: "number \<Rightarrow> real option" where
  "stationFlow x = scaleQuantize 0 1 [0, 1 / 2, 1] x"

text \<open>
  The callback that computes the value of the style property \<open>--departure-ratio\<close>:
  \<open>(d) => stationFlow(d.departures / d.totalTraffic)\<close>.
\<close>

definition departureRatio :: "'r station_traffic \<Rightarrow> real option" where
  "departureRatio d = stationFlow (js_divide (departures d) (totalTraffic d))"

section \<open>The radius scale (lines 136 to 138 and 190 to 192)\<close>

text \<open>
  Modelled from the spec: \<open>d3.max\<close> and \<open>d3.scaleSqrt\<close> belong to the d3 library, not
  under src/. The spec calls the radius scale "a square-root mapping from
  [0, maxTotalTrafficInCurrentView] to a pixel range". The model follows the library.
  \<open>d3.max\<close> is one pass that keeps the greatest value seen, \<open>undefined\<close> for no values.
  The scale takes the square root of its argument and of both ends of its domain, maps
  the argument linearly to a fraction of the (rooted) domain, the fraction being 0.5
  when both ends of the domain are equal, and returns the number at that fraction
  between the two ends of the range. A domain end that is \<open>undefined\<close> becomes NaN and
  makes every result NaN (here \<open>None\<close>). Square roots and quotients are those of the
  real numbers.
\<close>

definition max_step :: "nat option \<Rightarrow> nat \<Rightarrow> nat option" where
  "max_step mx val =
     (case mx of None \<Rightarrow> Some val | Some m \<Rightarrow> if m < val then Some val else Some m)"

definition d3_max :: "'a list \<Rightarrow> ('a \<Rightarrow> nat) \<Rightarrow> nat option" where
  "d3_max vs valueof = foldl (\<lambda>mx v. max_step mx (valueof v)) None vs"

record radius_scale =
  scale_domain :: "nat \<times> nat option"
  scale_range :: "real \<times> real"

definition transformSqrt :: "real \<Rightarrow> real" where
  "transformSqrt x = (if x < 0 then - sqrt (- x) else sqrt x)"

definition normalize :: "real \<Rightarrow> real \<Rightarrow> real \<Rightarrow> real" where
  "normalize a b x = (if b - a \<noteq> 0 then (x - a) / (b - a) else 1 / 2)"

definition interpolateNumber :: "real \<Rightarrow> real \<Rightarrow> real \<Rightarrow> real" where
  "interpolateNumber a b t = a * (1 - t) + b * t"

definition bimap :: "real \<Rightarrow> real \<Rightarrow> real \<Rightarrow> real \<Rightarrow> real \<Rightarrow> real" where
  "bimap d0 d1 r0 r1 x =
     (if d1 < d0 then interpolateNumber r1 r0 (normalize d1 d0 x)
      else interpolateNumber r0 r1 (normalize d0 d1 x))"

definition scale_apply :: "radius_scale \<Rightarrow> nat \<Rightarrow> real option" where
  "scale_apply sc x =
     (case scale_domain sc of
        (d0, None) \<Rightarrow> None
      | (d0, Some d1) \<Rightarrow>
          (case scale_range sc of
             (r0, r1) \<Rightarrow>
               Some (bimap (transformSqrt (real d0)) (transformSqrt (real d1)) r0 r1
                       (transformSqrt (real x)))))"

text \<open>
  Lines 136 to 138: the scale as it is built, from the aggregate of all trips.
\<close>

definition radiusScale :: "'r station_traffic list \<Rightarrow> radius_scale" where
  "radiusScale stations =
     \<lparr>scale_domain = (0, d3_max stations totalTraffic), scale_range = (0, 25)\<rparr>"

text \<open>
  updateScatterPlot, lines 185 to 192: the filtered trips, the aggregate over the
  stations of the stations document, and the new domain and range of the radius scale,
  which is the variable the function updates. The circles are a d3 selection and are
  not modelled.
\<close>

definition updateScatterPlot ::
  "'r station list \<Rightarrow> 'z trip_scheme list \<Rightarrow> radius_scale \<Rightarrow> int \<Rightarrow> radius_scale" where
  "updateScatterPlot stations trips scale timeFilter =
     (let filteredTrips = filterTripsByTime trips timeFilter;
          filteredStations = computeStationTraffic stations filteredTrips
      in scale
           \<lparr>scale_domain := (0, d3_max filteredStations totalTraffic),
            scale_range := (if timeFilter = - 1 then (0, 20) else (2, 25))\<rparr>)"

text \<open>
  The load handler builds the scale (line 136) and calls updateTimeDisplay once (line
  231), which reads the slider and calls updateScatterPlot; every later input event of
  the slider does the same. \<open>sliderValue\<close> is the value the slider has at load,
  \<open>inputs\<close> the values of the input events that follow.
\<close>

definition onLoad ::
  "'r station list \<Rightarrow> 'z trip_scheme list \<Rightarrow> int \<Rightarrow> radius_scale" where
  "onLoad stations trips sliderValue =
     updateScatterPlot stations trips
       (radiusScale (computeStationTraffic stations trips)) sliderValue"

definition afterInputs ::
  "'r station list \<Rightarrow> 'z trip_scheme list \<Rightarrow> int \<Rightarrow> int list \<Rightarrow> radius_scale" where
  "afterInputs stations trips sliderValue inputs =
     foldl (updateScatterPlot stations trips) (onLoad stations trips sliderValue) inputs"

section \<open>The same functions on a store of objects\<close>

text \<open>
  Arrays and objects of JavaScript are references. Where a claim is about which object
  a function returns, or about what it writes, the functions run on a store: a list of
  cells, the address of a cell being its index. A new object or array is a new cell at
  the end of the store. A call of \<open>.map\<close> or \<open>.filter\<close> on a value that is not an array
  is a TypeError. The cells are typed: an array of stations refers to station cells and
  an array of trips to trip cells. For an element that refers to a cell of another kind
  the functions below give TypeError as well, where JavaScript would read \<open>undefined\<close>
  properties of an object and go on; such stores are not station lists and trip lists,
  and the facts proved below are about the stores that are.
\<close>

type_synonym addr = nat

datatype ('r, 'z) jsobj =
    StationObj "'r station"
  | TrafficObj "'r station_traffic"
  | TripObj "'z trip_scheme"
  | ArrayObj "addr list"

type_synonym ('r, 'z) store = "('r, 'z) jsobj list"

datatype js_error = TypeError

definition deref :: "('r, 'z) store \<Rightarrow> addr \<Rightarrow> ('r, 'z) jsobj option" where
  "deref h a = (if a < length h then Some (h ! a) else None)"

definition alloc :: "('r, 'z) store \<Rightarrow> ('r, 'z) jsobj \<Rightarrow> addr \<times> ('r, 'z) store" where
  "alloc h obj = (length h, h @ [obj])"

text \<open>Reading the elements of an array of trips, of stations, of aggregated stations.\<close>

fun read_trips :: "('r, 'z) store \<Rightarrow> addr list \<Rightarrow> js_error + 'z trip_scheme list" where
  "read_trips h [] = Inr []"
| "read_trips h (a # as) =
     (case deref h a of
        Some (TripObj t) \<Rightarrow>
          (case read_trips h as of Inl e \<Rightarrow> Inl e | Inr ts \<Rightarrow> Inr (t # ts))
      | _ \<Rightarrow> Inl TypeError)"

fun read_stations :: "('r, 'z) store \<Rightarrow> addr list \<Rightarrow> js_error + 'r station list" where
  "read_stations h [] = Inr []"
| "read_stations h (a # as) =
     (case deref h a of
        Some (StationObj st) \<Rightarrow>
          (case read_stations h as of Inl e \<Rightarrow> Inl e | Inr sts \<Rightarrow> Inr (st # sts))
      | _ \<Rightarrow> Inl TypeError)"

fun read_traffic :: "('r, 'z) store \<Rightarrow> addr list \<Rightarrow> js_error + 'r station_traffic list" where
  "read_traffic h [] = Inr []"
| "read_traffic h (a # as) =
     (case deref h a of
        Some (TrafficObj st) \<Rightarrow>
          (case read_traffic h as of Inl e \<Rightarrow> Inl e | Inr sts \<Rightarrow> Inr (st # sts))
      | _ \<Rightarrow> Inl TypeError)"

definition elements :: "('r, 'z) store \<Rightarrow> addr \<Rightarrow> js_error + addr list" where
  "elements h a = (case deref h a of Some (ArrayObj as) \<Rightarrow> Inr as | _ \<Rightarrow> Inl TypeError)"

definition trips_at :: "('r, 'z) store \<Rightarrow> addr \<Rightarrow> js_error + 'z trip_scheme list" where
  "trips_at h a = (case elements h a of Inl e \<Rightarrow> Inl e | Inr as \<Rightarrow> read_trips h as)"

definition stations_at :: "('r, 'z) store \<Rightarrow> addr \<Rightarrow> js_error + 'r station list" where
  "stations_at h a = (case elements h a of Inl e \<Rightarrow> Inl e | Inr as \<Rightarrow> read_stations h as)"

definition traffic_at :: "('r, 'z) store \<Rightarrow> addr \<Rightarrow> js_error + 'r station_traffic list" where
  "traffic_at h a = (case elements h a of Inl e \<Rightarrow> Inl e | Inr as \<Rightarrow> read_traffic h as)"

text \<open>
  \<open>stations.map(st => ({...st, ...}))\<close>: for every element of the array, in order, a new
  object is made from the properties of the station the element refers to. The result
  is the list of the new addresses and the store with the new objects.
\<close>

fun map_stations ::
  "('r station \<Rightarrow> 'r station_traffic) \<Rightarrow> ('r, 'z) store \<Rightarrow> addr list \<Rightarrow>
     js_error + (addr list \<times> ('r, 'z) store)" where
  "map_stations f h [] = Inr ([], h)"
| "map_stations f h (a # as) =
     (case deref h a of
        Some (StationObj st) \<Rightarrow>
          (case alloc h (TrafficObj (f st)) of
             (a', h') \<Rightarrow>
               (case map_stations f h' as of
                  Inl e \<Rightarrow> Inl e
                | Inr (as', h'') \<Rightarrow> Inr (a' # as', h'')))
      | _ \<Rightarrow> Inl TypeError)"

text \<open>
  computeStationTraffic on the store: the two tables from the trips the array
  \<open>trips\<close> refers to, then the new objects, then the new array that refers to them. The
  tables and the groups of \<open>d3.rollup\<close> are local to the call and are values here.
\<close>

definition computeStationTraffic_h ::
  "('r, 'z) store \<Rightarrow> addr \<Rightarrow> addr \<Rightarrow> js_error + (addr \<times> ('r, 'z) store)" where
  "computeStationTraffic_h h stations trips =
     (case trips_at h trips of
        Inl e \<Rightarrow> Inl e
      | Inr ts \<Rightarrow>
          (let departuresMap = rollup ts length start_station_id;
               arrivalsMap = rollup ts length end_station_id
           in (case elements h stations of
                 Inl e \<Rightarrow> Inl e
               | Inr as \<Rightarrow>
                   (case map_stations (stationWithTraffic arrivalsMap departuresMap) h as of
                      Inl e \<Rightarrow> Inl e
                    | Inr (as', h') \<Rightarrow> Inr (alloc h' (ArrayObj as'))))))"

text \<open>
  \<open>trips.filter(...)\<close>: the elements whose trip satisfies the predicate, in order; the
  elements are references to the same trip objects.
\<close>

fun filter_trips ::
  "('z trip_scheme \<Rightarrow> bool) \<Rightarrow> ('r, 'z) store \<Rightarrow> addr list \<Rightarrow> js_error + addr list" where
  "filter_trips p h [] = Inr []"
| "filter_trips p h (a # as) =
     (case deref h a of
        Some (TripObj t) \<Rightarrow>
          (case filter_trips p h as of
             Inl e \<Rightarrow> Inl e
           | Inr ks \<Rightarrow> Inr (if p t then a # ks else ks))
      | _ \<Rightarrow> Inl TypeError)"

definition filterTripsByTime_h ::
  "('r, 'z) store \<Rightarrow> addr \<Rightarrow> int \<Rightarrow> js_error + (addr \<times> ('r, 'z) store)" where
  "filterTripsByTime_h h trips timeFilter =
     (if timeFilter = - 1 then Inr (trips, h)
      else (case elements h trips of
              Inl e \<Rightarrow> Inl e
            | Inr as \<Rightarrow>
                (case filter_trips (tripInWindow timeFilter) h as of
                   Inl e \<Rightarrow> Inl e
                 | Inr ks \<Rightarrow> Inr (alloc h (ArrayObj ks)))))"

text \<open>
  Lines 186 and 187 of updateScatterPlot on the store: the station array of the
  stations document is passed as it is.
\<close>

definition updateScatterPlot_h ::
  "('r, 'z) store \<Rightarrow> addr \<Rightarrow> addr \<Rightarrow> int \<Rightarrow> js_error + (addr \<times> ('r, 'z) store)" where
  "updateScatterPlot_h h stations trips timeFilter =
     (case filterTripsByTime_h h trips timeFilter of
        Inl e \<Rightarrow> Inl e
      | Inr (filteredTrips, h') \<Rightarrow> computeStationTraffic_h h' stations filteredTrips)"

section \<open>Example data\<close>

definition station_A :: "unit station" where
  "station_A = \<lparr>short_name = ''A'', lon = 0, lat = 0, other = ()\<rparr>"

definition station_B :: "unit station" where
  "station_B = \<lparr>short_name = ''B'', lon = 1, lat = 1, other = ()\<rparr>"

text \<open>A trip from 11:40 to 11:55 and a trip from 23:20 to 23:50.\<close>

definition trip_noon :: trip where
  "trip_noon = \<lparr>start_station_id = ''A'', end_station_id = ''B'',
     started_at = ValidDate 11 40, ended_at = ValidDate 11 55\<rparr>"

definition trip_night :: trip where
  "trip_night = \<lparr>start_station_id = ''B'', end_station_id = ''A'',
     started_at = ValidDate 23 20, ended_at = ValidDate 23 50\<rparr>"

text \<open>A trip that starts at a station the station list does not have.\<close>

definition trip_XA :: trip where
  "trip_XA = \<lparr>start_station_id = ''X'', end_station_id = ''A'',
     started_at = ValidDate 8 0, ended_at = ValidDate 8 10\<rparr>"

definition trip_XY :: trip where
  "trip_XY = \<lparr>start_station_id = ''X'', end_station_id = ''Y'',
     started_at = ValidDate 8 0, ended_at = ValidDate 8 10\<rparr>"

text \<open>
  A store: the two stations, the station array, two trips, the trip array.
\<close>

definition example_store :: "(unit, unit) store" where
  "example_store =
     [StationObj station_A, StationObj station_B, ArrayObj [0, 1],
      TripObj trip_noon, TripObj trip_XA, ArrayObj [3, 4]]"

section \<open>Facts about the frequency tables\<close>

lemma group_insert_apply:
  "group_insert g k v key =
     (if key = k then Some (case g k of None \<Rightarrow> [v] | Some grp \<Rightarrow> grp @ [v]) else g key)"
  by (simp add: group_insert_def split: option.split)

lemma foldl_group_insert:
  "foldl (\<lambda>groups v. group_insert groups (keyof v) v) g vs key =
     (case g key of
        None \<Rightarrow> (if filter (\<lambda>v. keyof v = key) vs = [] then None
                  else Some (filter (\<lambda>v. keyof v = key) vs))
      | Some grp \<Rightarrow> Some (grp @ filter (\<lambda>v. keyof v = key) vs))"
proof (induction vs arbitrary: g)
  case Nil
  show ?case by (simp split: option.split)
next
  case (Cons v vs)
  let ?step = "\<lambda>groups v. group_insert groups (keyof v) v"
  let ?hits = "filter (\<lambda>v. keyof v = key) vs"
  have "foldl ?step g (v # vs) key = foldl ?step (group_insert g (keyof v) v) vs key"
    by simp
  also have "\<dots> =
      (case group_insert g (keyof v) v key of
         None \<Rightarrow> (if ?hits = [] then None else Some ?hits)
       | Some grp \<Rightarrow> Some (grp @ ?hits))"
    by (rule Cons.IH)
  also have "\<dots> =
      (case g key of
         None \<Rightarrow> (if filter (\<lambda>v. keyof v = key) (v # vs) = [] then None
                   else Some (filter (\<lambda>v. keyof v = key) (v # vs)))
       | Some grp \<Rightarrow> Some (grp @ filter (\<lambda>v. keyof v = key) (v # vs)))"
    by (simp add: group_insert_apply split: option.split)
  finally show ?case .
qed

lemma regroup_key:
  "regroup vs keyof key =
     (if filter (\<lambda>v. keyof v = key) vs = [] then None
      else Some (filter (\<lambda>v. keyof v = key) vs))"
  by (simp add: regroup_def foldl_group_insert)

lemma nullish_rollup_length:
  "nullish (rollup vs length keyof key) 0 = length (filter (\<lambda>v. keyof v = key) vs)"
  by (simp add: rollup_def regroup_key nullish_def)

lemma computeStationTraffic_counts:
  "computeStationTraffic stations trips =
     map (\<lambda>st. station.extend st
            \<lparr>arrivals = length (filter (\<lambda>t. end_station_id t = short_name st) trips),
             departures = length (filter (\<lambda>t. start_station_id t = short_name st) trips),
             totalTraffic = length (filter (\<lambda>t. end_station_id t = short_name st) trips)
               + length (filter (\<lambda>t. start_station_id t = short_name st) trips)\<rparr>)
       stations"
  by (simp add: computeStationTraffic_def stationWithTraffic_def Let_def nullish_rollup_length)

lemma truncate_extend:
  "station.truncate (station.extend st \<lparr>arrivals = a, departures = d, totalTraffic = t\<rparr>) = st"
  by (simp add: station.defs)

lemma arrivals_extend:
  "arrivals (station.extend st \<lparr>arrivals = a, departures = d, totalTraffic = t\<rparr>) = a"
  by (simp add: station.defs)

lemma departures_extend:
  "departures (station.extend st \<lparr>arrivals = a, departures = d, totalTraffic = t\<rparr>) = d"
  by (simp add: station.defs)

lemma totalTraffic_extend:
  "totalTraffic (station.extend st \<lparr>arrivals = a, departures = d, totalTraffic = t\<rparr>) = t"
  by (simp add: station.defs)

lemma short_name_extend:
  "short_name (station.extend st \<lparr>arrivals = a, departures = d, totalTraffic = t\<rparr>) =
     short_name st"
  by (simp add: station.defs)

lemma computeStationTraffic_one_more_trip:
  "map arrivals (computeStationTraffic S (T1 @ t # T2)) =
     map (\<lambda>d. arrivals d + (if short_name d = end_station_id t then 1 else 0))
       (computeStationTraffic S (T1 @ T2)) \<and>
   map departures (computeStationTraffic S (T1 @ t # T2)) =
     map (\<lambda>d. departures d + (if short_name d = start_station_id t then 1 else 0))
       (computeStationTraffic S (T1 @ T2)) \<and>
   map totalTraffic (computeStationTraffic S (T1 @ t # T2)) =
     map (\<lambda>d. totalTraffic d + (if short_name d = end_station_id t then 1 else 0)
                 + (if short_name d = start_station_id t then 1 else 0))
       (computeStationTraffic S (T1 @ T2))"
  by (simp add: computeStationTraffic_counts comp_def arrivals_extend departures_extend
      totalTraffic_extend short_name_extend eq_commute [of "short_name _"])

section \<open>Claims about computeStationTraffic\<close>

text \<open>
  C1. For every station list and every trip list, the result of computeStationTraffic has
  as many elements as the station list, in the same order: dropping the three attached
  properties from the result gives the station list back, so every station is there,
  the ones without traffic too. In every element of the result, totalTraffic is
  arrivals plus departures.
\<close>

theorem computeStationTraffic_keeps_stations:
  "length (computeStationTraffic stations trips) = length stations \<and>
   map station.truncate (computeStationTraffic stations trips) = stations \<and>
   map totalTraffic (computeStationTraffic stations trips) =
     map (\<lambda>s. arrivals s + departures s) (computeStationTraffic stations trips)"
proof -
  have trunc: "map station.truncate (computeStationTraffic stations trips) = stations"
    by (simp add: computeStationTraffic_counts comp_def truncate_extend)
  have total: "map totalTraffic (computeStationTraffic stations trips) =
      map (\<lambda>s. arrivals s + departures s) (computeStationTraffic stations trips)"
    by (simp add: computeStationTraffic_counts comp_def arrivals_extend departures_extend
        totalTraffic_extend)
  have len: "length (computeStationTraffic stations trips) = length stations"
    by (simp add: computeStationTraffic_counts)
  from len trunc total show ?thesis
    by (intro conjI)
qed

text \<open>
  C8. With an empty trip list, the result is the station list with arrivals 0,
  departures 0 and totalTraffic 0 attached to every station.
\<close>

theorem computeStationTraffic_no_trips:
  "computeStationTraffic stations [] =
     map (\<lambda>st. station.extend st \<lparr>arrivals = 0, departures = 0, totalTraffic = 0\<rparr>) stations"
  by (simp add: computeStationTraffic_counts)

section \<open>Claims about filterTripsByTime\<close>

lemma absDiffLe60_spec_near: "absDiffLe60 x m = spec_near m x"
  by (cases x) (auto simp: absDiffLe60_def spec_near_def)

lemma tripInWindow_spec: "tripInWindow m t = spec_in_window m t"
  by (simp add: tripInWindow_def Let_def absDiffLe60_spec_near spec_in_window_def)

lemma filterTripsByTime_filter:
  "timeFilter \<noteq> - 1 \<Longrightarrow>
     filterTripsByTime trips timeFilter = filter (spec_in_window timeFilter) trips"
  by (simp add: filterTripsByTime_def tripInWindow_spec [abs_def])

text \<open>
  C2. For every trip list and every filter value other than the sentinel,
  filterTripsByTime returns exactly the trips whose start-minute or end-minute is within
  60 of the filter value, 60 included, with no wraparound at midnight. A trip of the
  list that starts at minute 700 is returned for the filter values 650 and 760; for the
  filter value 400 its start does not bring it in: it is returned only when its
  end-minute is within 60 of 400, so it is left out when it ends at or after its start
  on the clock. For the filter value 5, the end-minute 1430 brings no trip in: a trip
  ending at minute 1430 is returned only when its start-minute is within 60 of 5.
\<close>

theorem filterTripsByTime_window:
  "(timeFilter \<noteq> - 1 \<longrightarrow>
      filterTripsByTime trips timeFilter = filter (spec_in_window timeFilter) trips) \<and>
   (\<forall>t \<in> set trips. minutesSinceMidnight (started_at t) = Some 700 \<longrightarrow>
      t \<in> set (filterTripsByTime trips 650) \<and>
      t \<in> set (filterTripsByTime trips 760) \<and>
      (t \<in> set (filterTripsByTime trips 400) \<longleftrightarrow>
         spec_near 400 (minutesSinceMidnight (ended_at t))) \<and>
      (\<forall>e. minutesSinceMidnight (ended_at t) = Some e \<and> 700 \<le> e \<longrightarrow>
         t \<notin> set (filterTripsByTime trips 400))) \<and>
   (\<forall>t. minutesSinceMidnight (ended_at t) = Some 1430 \<longrightarrow>
      (t \<in> set (filterTripsByTime trips 5) \<longleftrightarrow>
         t \<in> set trips \<and> spec_near 5 (minutesSinceMidnight (started_at t))))"
proof (intro conjI)
  show "timeFilter \<noteq> - 1 \<longrightarrow>
      filterTripsByTime trips timeFilter = filter (spec_in_window timeFilter) trips"
    by (simp add: filterTripsByTime_filter)
next
  show "\<forall>t \<in> set trips. minutesSinceMidnight (started_at t) = Some 700 \<longrightarrow>
      t \<in> set (filterTripsByTime trips 650) \<and>
      t \<in> set (filterTripsByTime trips 760) \<and>
      (t \<in> set (filterTripsByTime trips 400) \<longleftrightarrow>
         spec_near 400 (minutesSinceMidnight (ended_at t))) \<and>
      (\<forall>e. minutesSinceMidnight (ended_at t) = Some e \<and> 700 \<le> e \<longrightarrow>
         t \<notin> set (filterTripsByTime trips 400))"
    by (auto simp: filterTripsByTime_filter spec_in_window_def spec_near_def)
next
  show "\<forall>t. minutesSinceMidnight (ended_at t) = Some 1430 \<longrightarrow>
      (t \<in> set (filterTripsByTime trips 5) \<longleftrightarrow>
         t \<in> set trips \<and> spec_near 5 (minutesSinceMidnight (started_at t)))"
    by (auto simp: filterTripsByTime_filter spec_in_window_def spec_near_def)
qed

lemma example_minutes:
  "minutesSinceMidnight (started_at trip_noon) = Some 700"
  "minutesSinceMidnight (ended_at trip_noon) = Some 715"
  "minutesSinceMidnight (started_at trip_night) = Some 1400"
  "minutesSinceMidnight (ended_at trip_night) = Some 1430"
  by (simp_all add: minutesSinceMidnight_def trip_noon_def trip_night_def)

theorem filterTripsByTime_window_witness:
  "(650 :: int) \<noteq> - 1 \<and>
   filterTripsByTime [trip_noon, trip_night] 650 =
     filter (spec_in_window 650) [trip_noon, trip_night] \<and>
   trip_noon \<in> set [trip_noon, trip_night] \<and>
   minutesSinceMidnight (started_at trip_noon) = Some 700 \<and>
   minutesSinceMidnight (ended_at trip_noon) = Some 715 \<and>
   trip_noon \<in> set (filterTripsByTime [trip_noon, trip_night] 650) \<and>
   trip_noon \<in> set (filterTripsByTime [trip_noon, trip_night] 760) \<and>
   trip_noon \<notin> set (filterTripsByTime [trip_noon, trip_night] 400) \<and>
   minutesSinceMidnight (ended_at trip_night) = Some 1430 \<and>
   trip_night \<notin> set (filterTripsByTime [trip_noon, trip_night] 5)"
proof -
  let ?T = "[trip_noon, trip_night]"
  note w = filterTripsByTime_window [of 650 ?T]
  have sentinel: "(650 :: int) \<noteq> - 1"
    by simp
  have main: "filterTripsByTime ?T 650 = filter (spec_in_window 650) ?T"
    using w sentinel by blast
  have mem: "trip_noon \<in> set ?T"
    by simp
  have noon: "trip_noon \<in> set (filterTripsByTime ?T 650) \<and>
      trip_noon \<in> set (filterTripsByTime ?T 760) \<and>
      trip_noon \<notin> set (filterTripsByTime ?T 400)"
    using w mem example_minutes(1,2) by fastforce
  have "trip_night \<in> set (filterTripsByTime ?T 5) \<longleftrightarrow>
      trip_night \<in> set ?T \<and> spec_near 5 (minutesSinceMidnight (started_at trip_night))"
    using w example_minutes(4) by blast
  then have night: "trip_night \<notin> set (filterTripsByTime ?T 5)"
    by (simp add: example_minutes spec_near_def)
  from sentinel main mem noon night example_minutes show ?thesis
    by blast
qed

text \<open>
  C9. For every trip list and every filter value, the result of filterTripsByTime is a
  subsequence of the trip list: it is the list with some elements left out, so every
  returned trip is a trip of the list, none is changed or repeated, and the order is
  the list's.
\<close>

theorem filterTripsByTime_subseq:
  "subseq (filterTripsByTime trips timeFilter) trips"
  by (simp add: filterTripsByTime_def)

text \<open>
  C10. For every trip list and every filter value, the sentinel too, filtering the
  result of filterTripsByTime again with the same value returns the same list.
\<close>

theorem filterTripsByTime_idempotent:
  "filterTripsByTime (filterTripsByTime trips timeFilter) timeFilter =
     filterTripsByTime trips timeFilter"
  by (simp add: filterTripsByTime_def)

text \<open>
  C6, as the code has it. A trip counts at each of its two ends on its own. A start
  station id that no station of the list has adds to no station's departures, an end
  station id that no station has adds to no station's arrivals, and a trip with both
  ids unknown changes nothing at all: the result is the result without the trip. In
  every case the result has one element for each station of the list and no other
  element. A trip with one unknown id still counts at the station of its other id: for
  every trip, known ids or not, every station whose short_name is the trip's end
  station id has one arrival more than without the trip, every station whose short_name
  is its start station id has one departure more, totalTraffic grows by the sum of the
  two, and no other count changes.
\<close>

theorem computeStationTraffic_unknown_ids:
  "length (computeStationTraffic S (T1 @ t # T2)) = length S \<and>
   map station.truncate (computeStationTraffic S (T1 @ t # T2)) = S \<and>
   (start_station_id t \<notin> short_name ` set S \<longrightarrow>
      map departures (computeStationTraffic S (T1 @ t # T2)) =
      map departures (computeStationTraffic S (T1 @ T2))) \<and>
   (end_station_id t \<notin> short_name ` set S \<longrightarrow>
      map arrivals (computeStationTraffic S (T1 @ t # T2)) =
      map arrivals (computeStationTraffic S (T1 @ T2))) \<and>
   (start_station_id t \<notin> short_name ` set S \<and> end_station_id t \<notin> short_name ` set S \<longrightarrow>
      computeStationTraffic S (T1 @ t # T2) = computeStationTraffic S (T1 @ T2)) \<and>
   map arrivals (computeStationTraffic S (T1 @ t # T2)) =
     map (\<lambda>d. arrivals d + (if short_name d = end_station_id t then 1 else 0))
       (computeStationTraffic S (T1 @ T2)) \<and>
   map departures (computeStationTraffic S (T1 @ t # T2)) =
     map (\<lambda>d. departures d + (if short_name d = start_station_id t then 1 else 0))
       (computeStationTraffic S (T1 @ T2)) \<and>
   map totalTraffic (computeStationTraffic S (T1 @ t # T2)) =
     map (\<lambda>d. totalTraffic d + (if short_name d = end_station_id t then 1 else 0)
                 + (if short_name d = start_station_id t then 1 else 0))
       (computeStationTraffic S (T1 @ T2))"
proof -
  have len: "length (computeStationTraffic S (T1 @ t # T2)) = length S"
    by (simp add: computeStationTraffic_counts)
  have same: "map station.truncate (computeStationTraffic S (T1 @ t # T2)) = S"
    by (simp add: computeStationTraffic_counts comp_def truncate_extend)
  have dep: "start_station_id t \<notin> short_name ` set S \<longrightarrow>
      map departures (computeStationTraffic S (T1 @ t # T2)) =
      map departures (computeStationTraffic S (T1 @ T2))"
  proof
    assume "start_station_id t \<notin> short_name ` set S"
    then have "\<forall>st \<in> set S. start_station_id t \<noteq> short_name st"
      by auto
    then show "map departures (computeStationTraffic S (T1 @ t # T2)) =
        map departures (computeStationTraffic S (T1 @ T2))"
      by (simp add: computeStationTraffic_counts comp_def departures_extend)
  qed
  have arr: "end_station_id t \<notin> short_name ` set S \<longrightarrow>
      map arrivals (computeStationTraffic S (T1 @ t # T2)) =
      map arrivals (computeStationTraffic S (T1 @ T2))"
  proof
    assume "end_station_id t \<notin> short_name ` set S"
    then have "\<forall>st \<in> set S. end_station_id t \<noteq> short_name st"
      by auto
    then show "map arrivals (computeStationTraffic S (T1 @ t # T2)) =
        map arrivals (computeStationTraffic S (T1 @ T2))"
      by (simp add: computeStationTraffic_counts comp_def arrivals_extend)
  qed
  have both: "start_station_id t \<notin> short_name ` set S \<and>
      end_station_id t \<notin> short_name ` set S \<longrightarrow>
      computeStationTraffic S (T1 @ t # T2) = computeStationTraffic S (T1 @ T2)"
  proof
    assume "start_station_id t \<notin> short_name ` set S \<and> end_station_id t \<notin> short_name ` set S"
    then have "\<forall>st \<in> set S.
        start_station_id t \<noteq> short_name st \<and> end_station_id t \<noteq> short_name st"
      by auto
    then show "computeStationTraffic S (T1 @ t # T2) = computeStationTraffic S (T1 @ T2)"
      by (simp add: computeStationTraffic_counts)
  qed
  note more = computeStationTraffic_one_more_trip [of S T1 t T2]
  from len same dep arr both more show ?thesis
    by blast
qed

theorem computeStationTraffic_unknown_ids_witness:
  "start_station_id trip_XY \<notin> short_name ` set [station_A, station_B] \<and>
   end_station_id trip_XY \<notin> short_name ` set [station_A, station_B] \<and>
   computeStationTraffic [station_A, station_B] ([trip_noon] @ trip_XY # [trip_XA]) =
     computeStationTraffic [station_A, station_B] ([trip_noon] @ [trip_XA]) \<and>
   map departures (computeStationTraffic [station_A, station_B] ([trip_noon] @ trip_XY # [trip_XA])) =
     map departures (computeStationTraffic [station_A, station_B] ([trip_noon] @ [trip_XA])) \<and>
   map arrivals (computeStationTraffic [station_A, station_B] ([trip_noon] @ trip_XY # [trip_XA])) =
     map arrivals (computeStationTraffic [station_A, station_B] ([trip_noon] @ [trip_XA])) \<and>
   length (computeStationTraffic [station_A, station_B] ([trip_noon] @ trip_XY # [trip_XA])) = 2 \<and>
   start_station_id trip_XA \<notin> short_name ` set [station_A, station_B] \<and>
   end_station_id trip_XA = short_name station_A \<and>
   map arrivals (computeStationTraffic [station_A, station_B] ([trip_noon] @ [])) = [0, 1] \<and>
   map arrivals (computeStationTraffic [station_A, station_B] ([trip_noon] @ trip_XA # [])) = [1, 1] \<and>
   map totalTraffic (computeStationTraffic [station_A, station_B] ([trip_noon] @ [])) = [1, 1] \<and>
   map totalTraffic (computeStationTraffic [station_A, station_B] ([trip_noon] @ trip_XA # []))
     = [2, 1] \<and>
   map departures (computeStationTraffic [station_A, station_B] ([trip_noon] @ trip_XA # [])) =
     map departures (computeStationTraffic [station_A, station_B] ([trip_noon] @ []))"
proof -
  let ?S = "[station_A, station_B]"
  have unknown: "start_station_id trip_XY \<notin> short_name ` set ?S"
    "end_station_id trip_XY \<notin> short_name ` set ?S"
    by (simp_all add: trip_XY_def station_A_def station_B_def)
  note w = computeStationTraffic_unknown_ids [of ?S "[trip_noon]" trip_XY "[trip_XA]"]
  from w have len: "length (computeStationTraffic ?S ([trip_noon] @ trip_XY # [trip_XA])) = 2"
    by simp
  from w unknown have drop:
    "computeStationTraffic ?S ([trip_noon] @ trip_XY # [trip_XA]) =
       computeStationTraffic ?S ([trip_noon] @ [trip_XA])"
    by blast
  have half: "start_station_id trip_XA \<notin> short_name ` set ?S"
    "end_station_id trip_XA = short_name station_A"
    by (simp_all add: trip_XA_def station_A_def station_B_def)
  have base:
    "map arrivals (computeStationTraffic ?S ([trip_noon] @ [])) = [0, 1]"
    "map totalTraffic (computeStationTraffic ?S ([trip_noon] @ [])) = [1, 1]"
    "map short_name (computeStationTraffic ?S ([trip_noon] @ [])) = [''A'', ''B'']"
    by (simp_all add: computeStationTraffic_counts arrivals_extend totalTraffic_extend
        short_name_extend station_A_def station_B_def trip_noon_def)
  have base_records:
    "computeStationTraffic ?S [trip_noon] =
       [station.extend station_A \<lparr>arrivals = 0, departures = 1, totalTraffic = 1\<rparr>,
        station.extend station_B \<lparr>arrivals = 1, departures = 0, totalTraffic = 1\<rparr>]"
    by (simp add: computeStationTraffic_counts station_A_def station_B_def trip_noon_def)
  note v = computeStationTraffic_unknown_ids [of ?S "[trip_noon]" trip_XA "[]"]
  from v have "map arrivals (computeStationTraffic ?S ([trip_noon] @ trip_XA # [])) =
      map (\<lambda>d. arrivals d + (if short_name d = end_station_id trip_XA then 1 else 0))
        (computeStationTraffic ?S ([trip_noon] @ []))"
    by blast
  then have "map arrivals (computeStationTraffic ?S ([trip_noon] @ trip_XA # [])) =
      map (\<lambda>d. arrivals d + (if short_name d = end_station_id trip_XA then 1 else 0))
        [station.extend station_A \<lparr>arrivals = 0, departures = 1, totalTraffic = 1\<rparr>,
         station.extend station_B \<lparr>arrivals = 1, departures = 0, totalTraffic = 1\<rparr>]"
    by (simp add: base_records)
  then have arr: "map arrivals (computeStationTraffic ?S ([trip_noon] @ trip_XA # [])) = [1, 1]"
    by (simp add: arrivals_extend short_name_extend station_A_def station_B_def trip_XA_def)
  from v have "map totalTraffic (computeStationTraffic ?S ([trip_noon] @ trip_XA # [])) =
      map (\<lambda>d. totalTraffic d + (if short_name d = end_station_id trip_XA then 1 else 0)
                  + (if short_name d = start_station_id trip_XA then 1 else 0))
        (computeStationTraffic ?S ([trip_noon] @ []))"
    by blast
  then have "map totalTraffic (computeStationTraffic ?S ([trip_noon] @ trip_XA # [])) =
      map (\<lambda>d. totalTraffic d + (if short_name d = end_station_id trip_XA then 1 else 0)
                  + (if short_name d = start_station_id trip_XA then 1 else 0))
        [station.extend station_A \<lparr>arrivals = 0, departures = 1, totalTraffic = 1\<rparr>,
         station.extend station_B \<lparr>arrivals = 1, departures = 0, totalTraffic = 1\<rparr>]"
    by (simp add: base_records)
  then have tot:
    "map totalTraffic (computeStationTraffic ?S ([trip_noon] @ trip_XA # [])) = [2, 1]"
    by (simp add: totalTraffic_extend short_name_extend station_A_def station_B_def
        trip_XA_def)
  from v half(1) have dep:
    "map departures (computeStationTraffic ?S ([trip_noon] @ trip_XA # [])) =
       map departures (computeStationTraffic ?S ([trip_noon] @ []))"
    by blast
  from unknown drop len half base(1,2) arr tot dep show ?thesis
    by simp
qed

text \<open>
  The claim as it is written fails for a trip with one unknown id: the trip from the
  unknown station X to station A is an arrival at A.
\<close>

theorem computeStationTraffic_unknown_start_counterexample:
  "start_station_id trip_XA \<notin> short_name ` set [station_A] \<and>
   map arrivals (computeStationTraffic [station_A] [trip_XA]) = [1] \<and>
   map totalTraffic (computeStationTraffic [station_A] [trip_XA]) = [1] \<and>
   map arrivals (computeStationTraffic [station_A] ([] :: trip list)) = [0] \<and>
   map totalTraffic (computeStationTraffic [station_A] ([] :: trip list)) = [0]"
  by (simp add: computeStationTraffic_counts arrivals_extend totalTraffic_extend station_A_def
      trip_XA_def)

section \<open>Claims about the flow-ratio scale\<close>

lemma quantize_domain_3: "quantize_domain 0 1 (Suc (Suc 0)) = [1 / 3, 2 / 3]"
  by (simp add: quantize_domain_def upt_rec)

lemma stationFlow_Num:
  "stationFlow (Num v) = Some (if v < 1 / 3 then 0 else if v < 2 / 3 then 1 / 2 else 1)"
  by (simp add: stationFlow_def scaleQuantize_def quantize_domain_3 bisectRight_def)

lemma stationFlow_NaN: "stationFlow NaN = None"
  by (simp add: stationFlow_def scaleQuantize_def)

lemma stationFlow_Infinity: "stationFlow Infinity = Some 1"
  by (simp add: stationFlow_def scaleQuantize_def quantize_domain_3 bisectRight_def)

lemma departureRatio_cases:
  "departureRatio d =
     (if totalTraffic d \<noteq> 0 then
        Some (if 3 * departures d < totalTraffic d then 0
              else if 3 * departures d < 2 * totalTraffic d then 1 / 2 else 1)
      else if departures d = 0 then None else Some 1)"
proof -
  have a: "0 < totalTraffic d \<Longrightarrow> (real (departures d) / real (totalTraffic d) < 1 / 3) = (3 * departures d < totalTraffic d)"
    by (simp add: field_simps) linarith
  have b: "0 < totalTraffic d \<Longrightarrow> (real (departures d) / real (totalTraffic d) < 2 / 3) = (3 * departures d < 2 * totalTraffic d)"
    by (simp add: field_simps) linarith
  show ?thesis using a b
  by (simp add: departureRatio_def js_divide_def stationFlow_Num stationFlow_NaN stationFlow_Infinity)
qed

lemma computeStationTraffic_total:
  "d \<in> set (computeStationTraffic S T) \<Longrightarrow> totalTraffic d = arrivals d + departures d"
  by (auto simp: computeStationTraffic_counts arrivals_extend departures_extend
      totalTraffic_extend)

text \<open>
  C3, as the code has it. Computing the value of the style property never fails: the
  division and the scale return a value for every station. For a station of the
  aggregate whose totalTraffic is 0 the quotient is NaN and the scale returns
  \<open>undefined\<close>: no bucket. For a station with traffic the value is a bucket: 0 when
  less than a third of the traffic are departures, 0.5 when less than two thirds, and 1
  otherwise.
\<close>

theorem departureRatio_of_aggregate:
  "\<forall>d \<in> set (computeStationTraffic S T).
     (totalTraffic d = 0 \<longrightarrow>
        js_divide (departures d) (totalTraffic d) = NaN \<and> departureRatio d = None) \<and>
     (0 < totalTraffic d \<longrightarrow>
        departureRatio d =
          Some (if 3 * departures d < totalTraffic d then 0
                else if 3 * departures d < 2 * totalTraffic d then 1 / 2 else 1) \<and>
        departureRatio d \<in> {Some 0, Some (1 / 2), Some 1})"
proof
  fix d
  assume "d \<in> set (computeStationTraffic S T)"
  then have total: "totalTraffic d = arrivals d + departures d"
    by (rule computeStationTraffic_total)
  show "(totalTraffic d = 0 \<longrightarrow>
        js_divide (departures d) (totalTraffic d) = NaN \<and> departureRatio d = None) \<and>
     (0 < totalTraffic d \<longrightarrow>
        departureRatio d =
          Some (if 3 * departures d < totalTraffic d then 0
                else if 3 * departures d < 2 * totalTraffic d then 1 / 2 else 1) \<and>
        departureRatio d \<in> {Some 0, Some (1 / 2), Some 1})"
    using total by (simp add: departureRatio_cases js_divide_def)
qed

theorem departureRatio_of_aggregate_witness:
  "station.extend station_B \<lparr>arrivals = 0, departures = 0, totalTraffic = 0\<rparr>
     \<in> set (computeStationTraffic [station_A, station_B] [trip_XA]) \<and>
   departureRatio (station.extend station_B \<lparr>arrivals = 0, departures = 0, totalTraffic = 0\<rparr>)
     = None \<and>
   station.extend station_A \<lparr>arrivals = 1, departures = 0, totalTraffic = 1\<rparr>
     \<in> set (computeStationTraffic [station_A, station_B] [trip_XA]) \<and>
   departureRatio (station.extend station_A \<lparr>arrivals = 1, departures = 0, totalTraffic = 1\<rparr>)
     = Some 0"
proof -
  let ?a = "station.extend station_A \<lparr>arrivals = 1, departures = 0, totalTraffic = 1\<rparr>"
  let ?b = "station.extend station_B \<lparr>arrivals = 0, departures = 0, totalTraffic = 0\<rparr>"
  have agg: "computeStationTraffic [station_A, station_B] [trip_XA] = [?a, ?b]"
    by (simp add: computeStationTraffic_counts station_A_def station_B_def trip_XA_def)
  have mem: "?a \<in> set (computeStationTraffic [station_A, station_B] [trip_XA])"
    "?b \<in> set (computeStationTraffic [station_A, station_B] [trip_XA])"
    by (simp_all add: agg)
  have traffic: "totalTraffic ?b = 0" "0 < totalTraffic ?a" "departures ?a = 0"
    by (simp_all add: totalTraffic_extend departures_extend)
  note w = departureRatio_of_aggregate [of "[station_A, station_B]" "[trip_XA]"]
  from w mem(2) traffic(1) have b: "departureRatio ?b = None"
    by blast
  from w mem(1) traffic(2) have
    "departureRatio ?a =
       Some (if 3 * departures ?a < totalTraffic ?a then 0
             else if 3 * departures ?a < 2 * totalTraffic ?a then 1 / 2 else 1)"
    by blast
  then have a: "departureRatio ?a = Some 0"
    using traffic by simp
  from mem a b show ?thesis
    by simp
qed

text \<open>
  The claim as it is written fails: the only station of this aggregate has no traffic,
  and the value computed for it is \<open>undefined\<close>, which is none of the buckets.
\<close>

theorem departureRatio_zero_traffic_counterexample:
  "map totalTraffic (computeStationTraffic [station_A] ([] :: trip list)) = [0] \<and>
   map departureRatio (computeStationTraffic [station_A] ([] :: trip list)) = [None] \<and>
   None \<notin> {Some (0 :: real), Some (1 / 2), Some 1}"
  by (simp add: computeStationTraffic_counts totalTraffic_extend departures_extend
      departureRatio_cases)

section \<open>Claims about the radius scale\<close>

lemma d3_max_fold:
  "foldl (\<lambda>mx v. max_step mx (valueof v)) (Some m) vs =
     Some (Max (insert m (valueof ` set vs)))"
proof (induction vs arbitrary: m)
  case Nil
  show ?case by simp
next
  case (Cons v vs)
  let ?A = "valueof ` set vs"
  have step: "max_step (Some m) (valueof v) = Some (max m (valueof v))"
    by (simp add: max_step_def max_def)
  have "Max (insert (max m (valueof v)) ?A) = Max (insert m (insert (valueof v) ?A))"
  proof (cases "?A = {}")
    case True
    then show ?thesis by (simp add: max.commute)
  next
    case False
    then show ?thesis by (simp add: max.assoc)
  qed
  then show ?case
    by (simp add: step Cons.IH)
qed

lemma d3_max_Max:
  "d3_max vs valueof = (if vs = [] then None else Some (Max (valueof ` set vs)))"
proof (cases vs)
  case Nil
  then show ?thesis by (simp add: d3_max_def)
next
  case (Cons v vs')
  have "max_step None (valueof v) = Some (valueof v)"
    by (simp add: max_step_def)
  then show ?thesis
    using Cons by (simp add: d3_max_def d3_max_fold)
qed

lemma updateScatterPlot_record:
  "updateScatterPlot S T sc tf =
     \<lparr>scale_domain = (0, d3_max (computeStationTraffic S (filterTripsByTime T tf)) totalTraffic),
      scale_range = (if tf = - 1 then (0, 20) else (2, 25))\<rparr>"
  by (simp add: updateScatterPlot_def Let_def)

lemma afterInputs_last:
  "afterInputs S T v inputs = updateScatterPlot S T sc (last (v # inputs))"
proof (induction inputs rule: rev_induct)
  case Nil
  show ?case by (simp add: afterInputs_def onLoad_def updateScatterPlot_record)
next
  case (snoc x xs)
  show ?case by (simp add: afterInputs_def updateScatterPlot_record)
qed

lemma transformSqrt_nat: "transformSqrt (real n) = sqrt (real n)"
  by (simp add: transformSqrt_def)

lemma transformSqrt_0: "transformSqrt 0 = 0"
  by (simp add: transformSqrt_def)

lemma scale_apply_sqrt:
  "0 < M \<Longrightarrow>
   scale_apply \<lparr>scale_domain = (0, Some M), scale_range = (r0, r1)\<rparr> x =
     Some (r0 * (1 - sqrt (real x) / sqrt (real M)) + r1 * (sqrt (real x) / sqrt (real M)))"
  by (simp add: scale_apply_def transformSqrt_nat transformSqrt_0 bimap_def normalize_def
      interpolateNumber_def)

lemma scale_apply_ends:
  "0 < M \<Longrightarrow>
   scale_apply \<lparr>scale_domain = (0, Some M), scale_range = (r0, r1)\<rparr> 0 = Some r0 \<and>
   scale_apply \<lparr>scale_domain = (0, Some M), scale_range = (r0, r1)\<rparr> M = Some r1"
  by (simp add: scale_apply_sqrt)

text \<open>
  C4. After the load handler, and after every input event of the slider that follows,
  the radius scale has the domain from 0 to the result of \<open>d3.max\<close> over the
  totalTraffic of the aggregate of the trips filtered with the current filter value,
  which is the greatest totalTraffic when there is a station; its range is from 0 to 20
  when the current filter value is the sentinel and from 2 to 25 otherwise. When the
  greatest totalTraffic \<open>M\<close> is positive the scale maps \<open>x\<close> to the range's lower end
  plus the range's width times the square root of \<open>x / M\<close> (written with two roots).
  With greatest totalTraffic 100 and no filter, 0 is mapped to 0 and 100 to 20; with
  greatest totalTraffic 50 under a filter, 0 is mapped to 2 and 50 to 25.
\<close>

theorem radiusScale_after_filter_change:
  "afterInputs S T v inputs =
     \<lparr>scale_domain =
        (0, d3_max (computeStationTraffic S (filterTripsByTime T (last (v # inputs)))) totalTraffic),
      scale_range = (if last (v # inputs) = - 1 then (0, 20) else (2, 25))\<rparr> \<and>
   (S \<noteq> [] \<longrightarrow>
      d3_max (computeStationTraffic S (filterTripsByTime T (last (v # inputs)))) totalTraffic =
        Some (Max (totalTraffic `
          set (computeStationTraffic S (filterTripsByTime T (last (v # inputs))))))) \<and>
   (\<forall>M x. d3_max (computeStationTraffic S (filterTripsByTime T (last (v # inputs)))) totalTraffic
            = Some M \<and> 0 < M \<longrightarrow>
      scale_apply (afterInputs S T v inputs) x =
        (if last (v # inputs) = - 1 then Some (20 * (sqrt (real x) / sqrt (real M)))
         else Some (2 + 23 * (sqrt (real x) / sqrt (real M))))) \<and>
   (last (v # inputs) = - 1 \<and> d3_max (computeStationTraffic S T) totalTraffic = Some 100 \<longrightarrow>
      scale_apply (afterInputs S T v inputs) 0 = Some 0 \<and>
      scale_apply (afterInputs S T v inputs) 100 = Some 20) \<and>
   (last (v # inputs) \<noteq> - 1 \<and>
    d3_max (computeStationTraffic S (filterTripsByTime T (last (v # inputs)))) totalTraffic
      = Some 50 \<longrightarrow>
      scale_apply (afterInputs S T v inputs) 0 = Some 2 \<and>
      scale_apply (afterInputs S T v inputs) 50 = Some 25)"
proof -
  let ?tf = "last (v # inputs)"
  let ?mx = "d3_max (computeStationTraffic S (filterTripsByTime T ?tf)) totalTraffic"
  have state: "afterInputs S T v inputs =
      \<lparr>scale_domain = (0, ?mx), scale_range = (if ?tf = - 1 then (0, 20) else (2, 25))\<rparr>"
    using afterInputs_last [of S T v inputs] updateScatterPlot_record [of S T _ ?tf]
    by simp
  have dom: "S \<noteq> [] \<longrightarrow> ?mx =
      Some (Max (totalTraffic ` set (computeStationTraffic S (filterTripsByTime T ?tf))))"
    by (simp add: d3_max_Max computeStationTraffic_counts)
  have root: "\<forall>M x. ?mx = Some M \<and> 0 < M \<longrightarrow>
      scale_apply (afterInputs S T v inputs) x =
        (if ?tf = - 1 then Some (20 * (sqrt (real x) / sqrt (real M)))
         else Some (2 + 23 * (sqrt (real x) / sqrt (real M))))"
    by (simp add: state scale_apply_sqrt algebra_simps)
  have unfiltered: "?tf = - 1 \<and> d3_max (computeStationTraffic S T) totalTraffic = Some 100 \<longrightarrow>
      scale_apply (afterInputs S T v inputs) 0 = Some 0 \<and>
      scale_apply (afterInputs S T v inputs) 100 = Some 20"
    using scale_apply_ends [of 100 0 20]
    by (simp add: state filterTripsByTime_def del: last.simps)
  have filtered: "?tf \<noteq> - 1 \<and> ?mx = Some 50 \<longrightarrow>
      scale_apply (afterInputs S T v inputs) 0 = Some 2 \<and>
      scale_apply (afterInputs S T v inputs) 50 = Some 25"
    using scale_apply_ends [of 50 2 25]
    by (simp add: state del: last.simps)
  from state dom root unfiltered filtered show ?thesis
    by (intro conjI)
qed

lemma example_max_100:
  "d3_max (computeStationTraffic [station_A, station_B] (replicate 100 trip_noon)) totalTraffic
     = Some 100"
  by (simp add: computeStationTraffic_counts d3_max_def max_step_def totalTraffic_extend
      station_A_def station_B_def trip_noon_def)

lemma example_max_50:
  "d3_max (computeStationTraffic [station_A, station_B]
      (filterTripsByTime (replicate 50 trip_noon @ [trip_night]) 700)) totalTraffic = Some 50"
  by (simp add: computeStationTraffic_counts d3_max_def max_step_def totalTraffic_extend
      station_A_def station_B_def trip_noon_def trip_night_def filterTripsByTime_def
      tripInWindow_def minutesSinceMidnight_def absDiffLe60_def)

theorem radiusScale_after_filter_change_witness:
  "last [- 1 :: int] = - 1 \<and>
   d3_max (computeStationTraffic [station_A, station_B] (replicate 100 trip_noon)) totalTraffic
     = Some 100 \<and>
   scale_apply (afterInputs [station_A, station_B] (replicate 100 trip_noon) (- 1) []) 0
     = Some 0 \<and>
   scale_apply (afterInputs [station_A, station_B] (replicate 100 trip_noon) (- 1) []) 100
     = Some 20 \<and>
   last [- 1, 700 :: int] \<noteq> - 1 \<and>
   d3_max (computeStationTraffic [station_A, station_B]
      (filterTripsByTime (replicate 50 trip_noon @ [trip_night]) 700)) totalTraffic = Some 50 \<and>
   scale_apply
     (afterInputs [station_A, station_B] (replicate 50 trip_noon @ [trip_night]) (- 1) [700]) 0
     = Some 2 \<and>
   scale_apply
     (afterInputs [station_A, station_B] (replicate 50 trip_noon @ [trip_night]) (- 1) [700]) 50
     = Some 25"
proof -
  let ?S = "[station_A, station_B]"
  let ?T = "replicate 50 trip_noon @ [trip_night]"
  have unfiltered: "last [- 1 :: int] = - 1"
    by simp
  have filtered: "last [- 1, 700 :: int] \<noteq> - 1" "last [- 1, 700 :: int] = 700"
    by simp_all
  from radiusScale_after_filter_change [of ?S "replicate 100 trip_noon" "- 1" "[]"]
    unfiltered example_max_100
  have first: "scale_apply (afterInputs ?S (replicate 100 trip_noon) (- 1) []) 0 = Some 0 \<and>
      scale_apply (afterInputs ?S (replicate 100 trip_noon) (- 1) []) 100 = Some 20"
    by blast
  from radiusScale_after_filter_change [of ?S ?T "- 1" "[700]"] filtered example_max_50
  have second: "scale_apply (afterInputs ?S ?T (- 1) [700]) 0 = Some 2 \<and>
      scale_apply (afterInputs ?S ?T (- 1) [700]) 50 = Some 25"
    by force
  from unfiltered filtered(1) example_max_100 example_max_50 first second show ?thesis
    by blast
qed

section \<open>Claims about references and writes\<close>

lemma deref_append:
  "deref (h @ k) a =
     (if a < length h then Some (h ! a)
      else if a < length h + length k then Some (k ! (a - length h)) else None)"
  by (simp add: deref_def nth_append)

lemma deref_alloc: "deref (h @ [c]) (length h) = Some c"
  by (simp add: deref_def)

lemma elements_alloc: "elements (h @ [ArrayObj as]) (length h) = Inr as"
  by (simp add: elements_def deref_alloc)

lemma deref_prefix: "prefix h h' \<Longrightarrow> deref h a = Some c \<Longrightarrow> deref h' a = Some c"
  by (auto simp: prefix_def deref_def nth_append split: if_splits)

lemma elements_prefix: "prefix h h' \<Longrightarrow> elements h a = Inr as \<Longrightarrow> elements h' a = Inr as"
  by (auto simp: elements_def dest: deref_prefix split: option.splits jsobj.splits)

lemma read_stations_prefix:
  "prefix h h' \<Longrightarrow> read_stations h as = Inr S \<Longrightarrow> read_stations h' as = Inr S"
proof (induction as arbitrary: S)
  case Nil
  then show ?case by simp
next
  case (Cons a as)
  from Cons.prems(2) obtain st S' where
    a: "deref h a = Some (StationObj st)" and rest: "read_stations h as = Inr S'" and S: "S = st # S'"
    by (auto split: option.splits jsobj.splits sum.splits)
  from deref_prefix [OF Cons.prems(1) a] Cons.IH [OF Cons.prems(1) rest] S
  show ?case by simp
qed

lemma read_trips_prefix:
  "prefix h h' \<Longrightarrow> read_trips h as = Inr T \<Longrightarrow> read_trips h' as = Inr T"
proof (induction as arbitrary: T)
  case Nil
  then show ?case by simp
next
  case (Cons a as)
  from Cons.prems(2) obtain t T' where
    a: "deref h a = Some (TripObj t)" and rest: "read_trips h as = Inr T'" and T: "T = t # T'"
    by (auto split: option.splits jsobj.splits sum.splits)
  from deref_prefix [OF Cons.prems(1) a] Cons.IH [OF Cons.prems(1) rest] T
  show ?case by simp
qed

lemma stations_at_prefix:
  assumes "prefix h h'" and "stations_at h a = Inr S"
  shows "stations_at h' a = Inr S"
proof -
  from assms(2) obtain as where as: "elements h a = Inr as" "read_stations h as = Inr S"
    by (auto simp: stations_at_def split: sum.splits)
  from elements_prefix [OF assms(1) as(1)] read_stations_prefix [OF assms(1) as(2)]
  show ?thesis by (simp add: stations_at_def)
qed

lemma trips_at_prefix:
  assumes "prefix h h'" and "trips_at h a = Inr T"
  shows "trips_at h' a = Inr T"
proof -
  from assms(2) obtain as where as: "elements h a = Inr as" "read_trips h as = Inr T"
    by (auto simp: trips_at_def split: sum.splits)
  from elements_prefix [OF assms(1) as(1)] read_trips_prefix [OF assms(1) as(2)]
  show ?thesis by (simp add: trips_at_def)
qed

lemma upt_fresh: "[n ..< Suc (n + k)] = n # [Suc n ..< Suc (n + k)]"
  by (simp add: upt_conv_Cons del: upt_Suc)

lemma map_stations_alloc:
  "read_stations h as = Inr S \<Longrightarrow>
   map_stations f h as =
     Inr ([length h ..< length h + length S], h @ map (\<lambda>st. TrafficObj (f st)) S)"
proof (induction as arbitrary: h S)
  case Nil
  then show ?case by simp
next
  case (Cons a as)
  from Cons.prems obtain st S' where
    a: "deref h a = Some (StationObj st)" and rest: "read_stations h as = Inr S'" and S: "S = st # S'"
    by (auto split: option.splits jsobj.splits sum.splits)
  let ?h = "h @ [TrafficObj (f st)]"
  have "prefix h ?h" by simp
  from read_stations_prefix [OF this rest] have "read_stations ?h as = Inr S'" .
  from Cons.IH [OF this]
  have "map_stations f ?h as =
      Inr ([length ?h ..< length ?h + length S'], ?h @ map (\<lambda>st. TrafficObj (f st)) S')" .
  then have "map_stations f ?h as =
      Inr ([Suc (length h) ..< Suc (length h) + length S'],
           h @ map (\<lambda>st. TrafficObj (f st)) S)"
    using S by simp
  then show ?case
    using a S by (simp add: alloc_def upt_fresh del: upt_Suc)
qed

lemma read_traffic_fresh:
  "read_traffic (h @ map TrafficObj xs @ k) [length h ..< length h + length xs] = Inr xs"
proof (induction xs arbitrary: h)
  case Nil
  show ?case by simp
next
  case (Cons x xs)
  have "read_traffic ((h @ [TrafficObj x]) @ map TrafficObj xs @ k)
      [length (h @ [TrafficObj x]) ..< length (h @ [TrafficObj x]) + length xs] = Inr xs"
    by (rule Cons.IH)
  then have rest: "read_traffic (h @ TrafficObj x # map TrafficObj xs @ k)
      [Suc (length h) ..< Suc (length h) + length xs] = Inr xs"
    by simp
  have here: "deref (h @ TrafficObj x # map TrafficObj xs @ k) (length h) = Some (TrafficObj x)"
    by (simp add: deref_append)
  show ?case
    using rest here by (simp add: upt_fresh del: upt_Suc)
qed

lemma filter_trips_read:
  "read_trips h as = Inr T \<Longrightarrow>
   \<exists>ks. filter_trips p h as = Inr ks \<and> read_trips h ks = Inr (filter p T) \<and> subseq ks as"
proof (induction as arbitrary: T)
  case Nil
  then show ?case by simp
next
  case (Cons a as)
  from Cons.prems obtain t T' where
    a: "deref h a = Some (TripObj t)" and rest: "read_trips h as = Inr T'" and T: "T = t # T'"
    by (auto split: option.splits jsobj.splits sum.splits)
  from Cons.IH [OF rest] obtain ks where
    ks: "filter_trips p h as = Inr ks" "read_trips h ks = Inr (filter p T')" "subseq ks as"
    by blast
  show ?case
    using a T ks by (auto intro: list_emb_Cons)
qed


lemma filterTripsByTime_h_result:
  assumes "trips_at h trips = Inr T"
  shows "\<exists>res h'. filterTripsByTime_h h trips tf = Inr (res, h') \<and> prefix h h' \<and>
           trips_at h' res = Inr (filterTripsByTime T tf)"
proof (cases "tf = - 1")
  case True
  with assms show ?thesis
    by (simp add: filterTripsByTime_h_def filterTripsByTime_def)
next
  case False
  from assms obtain as where as: "elements h trips = Inr as" "read_trips h as = Inr T"
    by (auto simp: trips_at_def split: sum.splits)
  from filter_trips_read [OF as(2), of "tripInWindow tf"] obtain ks where
    ks: "filter_trips (tripInWindow tf) h as = Inr ks"
        "read_trips h ks = Inr (filter (tripInWindow tf) T)"
    by blast
  let ?h = "h @ [ArrayObj ks]"
  have pre: "prefix h ?h"
    by simp
  have run: "filterTripsByTime_h h trips tf = Inr (length h, ?h)"
    using False as(1) ks(1) by (simp add: filterTripsByTime_h_def alloc_def)
  have "elements ?h (length h) = Inr ks"
    by (rule elements_alloc)
  then have "trips_at ?h (length h) = Inr (filter (tripInWindow tf) T)"
    using read_trips_prefix [OF pre ks(2)] by (simp add: trips_at_def)
  with run pre False show ?thesis
    by (simp add: filterTripsByTime_def)
qed

lemma computeStationTraffic_h_result:
  assumes "stations_at h stations = Inr S" and "trips_at h trips = Inr T"
  shows "\<exists>res h'. computeStationTraffic_h h stations trips = Inr (res, h') \<and> prefix h h' \<and>
           traffic_at h' res = Inr (computeStationTraffic S T) \<and>
           length h \<le> res \<and>
           (\<exists>as. elements h' res = Inr as \<and> distinct as \<and> (\<forall>a \<in> set as. length h \<le> a))"
proof -
  from assms(1) obtain as where as: "elements h stations = Inr as" "read_stations h as = Inr S"
    by (auto simp: stations_at_def split: sum.splits)
  let ?f = "stationWithTraffic (rollup T length end_station_id) (rollup T length start_station_id)"
  let ?new = "[length h ..< length h + length S]"
  let ?h1 = "h @ map (\<lambda>st. TrafficObj (?f st)) S"
  let ?h2 = "?h1 @ [ArrayObj ?new]"
  have run: "computeStationTraffic_h h stations trips = Inr (length ?h1, ?h2)"
    using assms(2) as(1) map_stations_alloc [OF as(2), of ?f]
    by (simp add: computeStationTraffic_h_def Let_def alloc_def)
  have pre: "prefix h ?h2"
    by simp
  have arr: "elements ?h2 (length ?h1) = Inr ?new"
    by (rule elements_alloc)
  have "read_traffic (h @ map TrafficObj (map ?f S) @ [ArrayObj ?new])
      [length h ..< length h + length (map ?f S)] = Inr (map ?f S)"
    by (rule read_traffic_fresh)
  then have "read_traffic ?h2 ?new = Inr (map ?f S)"
    by (simp add: comp_def)
  then have res: "traffic_at ?h2 (length ?h1) = Inr (computeStationTraffic S T)"
    using arr by (simp add: traffic_at_def computeStationTraffic_def Let_def)
  have fresh: "distinct ?new \<and> (\<forall>a \<in> set ?new. length h \<le> a)"
    by simp
  have len: "length h \<le> length ?h1"
    by simp
  from arr fresh have
    "\<exists>as. elements ?h2 (length ?h1) = Inr as \<and> distinct as \<and> (\<forall>a \<in> set as. length h \<le> a)"
    by blast
  with run pre res len show ?thesis
    by blast
qed

lemma example_store_arrays:
  "stations_at example_store 2 = Inr [station_A, station_B]"
  "trips_at example_store 5 = Inr [trip_noon, trip_XA]"
  by (simp_all add: example_store_def stations_at_def trips_at_def elements_def deref_def)

text \<open>
  C5. With the sentinel as filter value, filterTripsByTime returns the reference it was
  given, whatever it refers to, and makes no new array: the store is the one before the
  call. As a list of trips, the result is the input list.
\<close>

theorem filterTripsByTime_sentinel_identity:
  "filterTripsByTime_h h trips (- 1) = Inr (trips, h) \<and> filterTripsByTime T (- 1) = T"
  by (simp add: filterTripsByTime_h_def filterTripsByTime_def)

text \<open>
  C7. When \<open>stations\<close> refers to an array of stations and \<open>trips\<close> to an array of trips,
  computeStationTraffic returns, and the store after the call is the store before it
  with new cells at its end: every object and array that was there is at the same
  address with the same contents, so the station array holds the same stations. The
  result is a new array of new, pairwise different objects, which hold the aggregate.
  The same holds for lines 186 and 187 of updateScatterPlot, where the station array of
  the stations document is passed as it is, for every filter value.
\<close>

theorem computeStationTraffic_h_frame:
  assumes "stations_at h stations = Inr S" and "trips_at h trips = Inr T"
  shows "(\<exists>res h'. computeStationTraffic_h h stations trips = Inr (res, h') \<and>
            prefix h h' \<and> stations_at h' stations = Inr S \<and>
            traffic_at h' res = Inr (computeStationTraffic S T) \<and>
            length h \<le> res \<and>
            (\<exists>as. elements h' res = Inr as \<and> distinct as \<and> (\<forall>a \<in> set as. length h \<le> a))) \<and>
         (\<exists>res h'. updateScatterPlot_h h stations trips tf = Inr (res, h') \<and>
            prefix h h' \<and> stations_at h' stations = Inr S \<and>
            traffic_at h' res = Inr (computeStationTraffic S (filterTripsByTime T tf)))"
proof
  from computeStationTraffic_h_result [OF assms] obtain res h' where
    r: "computeStationTraffic_h h stations trips = Inr (res, h')" "prefix h h'"
       "traffic_at h' res = Inr (computeStationTraffic S T)" "length h \<le> res"
       "\<exists>as. elements h' res = Inr as \<and> distinct as \<and> (\<forall>a \<in> set as. length h \<le> a)"
    by blast
  from stations_at_prefix [OF r(2) assms(1)] r
  show "\<exists>res h'. computeStationTraffic_h h stations trips = Inr (res, h') \<and>
      prefix h h' \<and> stations_at h' stations = Inr S \<and>
      traffic_at h' res = Inr (computeStationTraffic S T) \<and>
      length h \<le> res \<and>
      (\<exists>as. elements h' res = Inr as \<and> distinct as \<and> (\<forall>a \<in> set as. length h \<le> a))"
    by blast
next
  from filterTripsByTime_h_result [OF assms(2), of tf] obtain ft h1 where
    f: "filterTripsByTime_h h trips tf = Inr (ft, h1)" "prefix h h1"
       "trips_at h1 ft = Inr (filterTripsByTime T tf)"
    by blast
  have st1: "stations_at h1 stations = Inr S"
    by (rule stations_at_prefix [OF f(2) assms(1)])
  from computeStationTraffic_h_result [OF st1 f(3)] obtain res h' where
    r: "computeStationTraffic_h h1 stations ft = Inr (res, h')" "prefix h1 h'"
       "traffic_at h' res = Inr (computeStationTraffic S (filterTripsByTime T tf))"
    by blast
  have run: "updateScatterPlot_h h stations trips tf = Inr (res, h')"
    using f(1) r(1) by (simp add: updateScatterPlot_h_def)
  have pre: "prefix h h'"
    using f(2) r(2) by (rule prefix_order.trans)
  from run pre stations_at_prefix [OF pre assms(1)] r(3)
  show "\<exists>res h'. updateScatterPlot_h h stations trips tf = Inr (res, h') \<and>
      prefix h h' \<and> stations_at h' stations = Inr S \<and>
      traffic_at h' res = Inr (computeStationTraffic S (filterTripsByTime T tf))"
    by blast
qed

theorem computeStationTraffic_h_frame_witness:
  "stations_at example_store 2 = Inr [station_A, station_B] \<and>
   trips_at example_store 5 = Inr [trip_noon, trip_XA] \<and>
   (\<exists>res h'. computeStationTraffic_h example_store 2 5 = Inr (res, h') \<and>
      prefix example_store h' \<and> stations_at h' 2 = Inr [station_A, station_B] \<and>
      traffic_at h' res =
        Inr (computeStationTraffic [station_A, station_B] [trip_noon, trip_XA])) \<and>
   (\<exists>res h'. updateScatterPlot_h example_store 2 5 700 = Inr (res, h') \<and>
      prefix example_store h' \<and> stations_at h' 2 = Inr [station_A, station_B] \<and>
      traffic_at h' res =
        Inr (computeStationTraffic [station_A, station_B]
               (filterTripsByTime [trip_noon, trip_XA] 700)))"
  using computeStationTraffic_h_frame [OF example_store_arrays, of 700] example_store_arrays
  by blast

end
